theory Spec2Isabelle
  imports Complex_Main
begin

section \<open>Hydrogen radial wavefunction: 1dSchroedingerHydrogen.py\<close>

text \<open>
  The script evaluates the analytic radial wavefunction of the hydrogen atom on a
  sampled grid and hands the arrays to a plotting library. The embedding below follows
  the script line by line.

  Conventions of the model:
  \<^item> Python \<open>int\<close> values (\<open>n\<close>, \<open>l\<close>, \<open>a0\<close>, \<open>r_max\<close>) are \<open>int\<close>;
  \<^item> a finite numpy \<open>float64\<close> value is a \<open>real\<close>, and arithmetic on finite values is
    exact: rounding, and overflow or underflow of an arithmetic operation on finite
    operands, are outside the model;
  \<^item> the non-finite values \<open>inf\<close>, \<open>-inf\<close> and \<open>nan\<close> are modelled where the script can
    produce them from finite input, that is from the library factorial, which returns
    \<open>inf\<close> for arguments from 171 on: the values computed from the factorials (the
    normalization constant, the wavefunction, the probability density) have the type
    \<open>float64\<close> below;
  \<^item> the input array \<open>r\<close> and the grid hold finite values and are \<open>real list\<close>; numpy's
    elementwise arithmetic is \<open>map\<close> (one array) or \<open>map2\<close> (two arrays of equal length);
  \<^item> a raised exception is a value \<open>Inl e\<close> of the result type \<open>py_error + 'a\<close>.
\<close>

datatype py_error = ZeroDivisionError | ValueError

subsection \<open>Module constant\<close>

text \<open>Line 6: \<^verbatim>\<open>a0 = 1\<close>, the Bohr radius in atomic units, a Python \<open>int\<close>.\<close>

definition a0 :: int where
  "a0 = 1"

subsection \<open>Values of type float64\<close>

text \<open>
  A \<open>float64\<close> is a finite value, one of the two infinities, or \<open>nan\<close>. Multiplication,
  division, comparison and square root follow IEEE 754 on the non-finite values and on
  zero divisors; the sign of a zero is not modelled (a zero counts as positive).
\<close>

datatype float64 = Fin (fin_val: real) | PosInf | NegInf | NaN

text \<open>The infinity that a non-zero finite factor \<open>x\<close> turns \<open>inf\<close> into; \<open>0 * inf\<close> is \<open>nan\<close>.\<close>

definition inf_of_sign :: "real \<Rightarrow> float64" where
  "inf_of_sign x = (if x = 0 then NaN else if 0 < x then PosInf else NegInf)"

instantiation float64 :: "{zero, one, times, inverse, ord, power}"
begin

definition zero_float64 :: float64 where
  "zero_float64 = Fin 0"

definition one_float64 :: float64 where
  "one_float64 = Fin 1"

fun times_float64 :: "float64 \<Rightarrow> float64 \<Rightarrow> float64" where
  "times_float64 NaN y = NaN"
| "times_float64 x NaN = NaN"
| "times_float64 (Fin x) (Fin y) = Fin (x * y)"
| "times_float64 (Fin x) PosInf = inf_of_sign x"
| "times_float64 (Fin x) NegInf = inf_of_sign (- x)"
| "times_float64 PosInf (Fin y) = inf_of_sign y"
| "times_float64 NegInf (Fin y) = inf_of_sign (- y)"
| "times_float64 PosInf PosInf = PosInf"
| "times_float64 PosInf NegInf = NegInf"
| "times_float64 NegInf PosInf = NegInf"
| "times_float64 NegInf NegInf = PosInf"

fun divide_float64 :: "float64 \<Rightarrow> float64 \<Rightarrow> float64" where
  "divide_float64 NaN y = NaN"
| "divide_float64 x NaN = NaN"
| "divide_float64 (Fin x) (Fin y) = (if y = 0 then inf_of_sign x else Fin (x / y))"
| "divide_float64 (Fin x) PosInf = Fin 0"
| "divide_float64 (Fin x) NegInf = Fin 0"
| "divide_float64 PosInf (Fin y) = (if y < 0 then NegInf else PosInf)"
| "divide_float64 NegInf (Fin y) = (if y < 0 then PosInf else NegInf)"
| "divide_float64 PosInf PosInf = NaN"
| "divide_float64 PosInf NegInf = NaN"
| "divide_float64 NegInf PosInf = NaN"
| "divide_float64 NegInf NegInf = NaN"

definition inverse_float64 :: "float64 \<Rightarrow> float64" where
  "inverse_float64 x = divide (Fin 1) x"

fun less_float64 :: "float64 \<Rightarrow> float64 \<Rightarrow> bool" where
  "less_float64 (Fin x) (Fin y) = (x < y)"
| "less_float64 (Fin x) PosInf = True"
| "less_float64 NegInf (Fin y) = True"
| "less_float64 NegInf PosInf = True"
| "less_float64 x y = False"

fun less_eq_float64 :: "float64 \<Rightarrow> float64 \<Rightarrow> bool" where
  "less_eq_float64 (Fin x) (Fin y) = (x \<le> y)"
| "less_eq_float64 (Fin x) PosInf = True"
| "less_eq_float64 NegInf (Fin y) = True"
| "less_eq_float64 NegInf PosInf = True"
| "less_eq_float64 PosInf PosInf = True"
| "less_eq_float64 NegInf NegInf = True"
| "less_eq_float64 x y = False"

instance ..

end

text \<open>\<^verbatim>\<open>numpy.sqrt\<close> on a scalar: \<open>nan\<close> (with a warning) for a negative argument.\<close>

fun np_sqrt :: "float64 \<Rightarrow> float64" where
  "np_sqrt (Fin x) = (if x < 0 then NaN else Fin (sqrt x))"
| "np_sqrt PosInf = PosInf"
| "np_sqrt NegInf = NaN"
| "np_sqrt NaN = NaN"

subsection \<open>Library functions called by the script\<close>

text \<open>
  \<^verbatim>\<open>scipy.special.factorial(n)\<close> with the default \<open>exact=False\<close>: the \<open>float64\<close> value of
  \<open>n!\<close>, computed as \<open>gamma(n + 1)\<close>, and \<open>0\<close> for a negative argument (it does not raise).
  The largest finite \<open>float64\<close> is below \<open>2\<^sup>1\<^sup>0\<^sup>2\<^sup>4\<close>, and \<open>170! < 2\<^sup>1\<^sup>0\<^sup>2\<^sup>4 < 171!\<close>: the result is
  finite up to 170 and \<open>inf\<close> from 171 on.
\<close>

definition factorial :: "int \<Rightarrow> float64" where
  "factorial k =
     (if k < 0 then Fin 0 else if k \<le> 170 then Fin (fact (nat k)) else PosInf)"

text \<open>
  The value of the generalized Laguerre polynomial \<open>L\<^bsub>k\<^esub>\<^bsup>(\<alpha>)\<^esup>(x)\<close> of degree \<open>k\<close>, computed
  by the three-term recurrence
  \<open>(k + 2) L\<^bsub>k+2\<^esub> = (2 k + 3 + \<alpha> - x) L\<^bsub>k+1\<^esub> - (k + 1 + \<alpha>) L\<^bsub>k\<^esub>\<close>.
\<close>

fun eval_genlaguerre :: "nat \<Rightarrow> real \<Rightarrow> real \<Rightarrow> real" where
  "eval_genlaguerre 0 alpha x = 1"
| "eval_genlaguerre (Suc 0) alpha x = 1 + alpha - x"
| "eval_genlaguerre (Suc (Suc k)) alpha x =
     ((2 * real k + 3 + alpha - x) * eval_genlaguerre (Suc k) alpha x
       - (real k + 1 + alpha) * eval_genlaguerre k alpha x) / (real k + 2)"

text \<open>
  \<^verbatim>\<open>scipy.special.genlaguerre(n, alpha)\<close> builds the polynomial object. It raises
  \<open>ValueError\<close> when \<open>alpha \<le> -1\<close> and, after that check, when the degree is negative;
  otherwise the object returned is callable and evaluates the polynomial pointwise.
\<close>

definition genlaguerre :: "int \<Rightarrow> int \<Rightarrow> py_error + (real \<Rightarrow> real)" where
  "genlaguerre k alpha =
     (if alpha \<le> - 1 then Inl ValueError
      else if k < 0 then Inl ValueError
      else Inr (eval_genlaguerre (nat k) (real_of_int alpha)))"

text \<open>
  \<^verbatim>\<open>numpy.linspace(start, stop, num)\<close> with the default \<open>endpoint=True\<close>: \<open>num\<close> samples
  \<open>start + i * step\<close> with \<open>step = (stop - start) / (num - 1)\<close>, the last one then
  overwritten by \<open>stop\<close> itself when \<open>num > 1\<close>.
\<close>

definition linspace :: "real \<Rightarrow> real \<Rightarrow> nat \<Rightarrow> real list" where
  "linspace start stop num =
     (if num = 0 then []
      else if num = 1 then [start]
      else (let step = (stop - start) / real (num - 1);
                y = map (\<lambda>i. real i * step + start) [0..<num]
            in y[num - 1 := stop]))"

subsection \<open>The radial evaluator (lines 8 to 35)\<close>

text \<open>
  Line 20 divides a numpy array by the Python \<open>int\<close> \<open>n * a0\<close>: for a zero divisor numpy
  warns and fills the array with \<open>inf\<close>, it does not raise. Line 24 divides the Python
  \<open>int\<close> 2 by \<open>n * a0\<close>, which raises \<open>ZeroDivisionError\<close> for a zero divisor; this is the
  first exception the function can raise, so the model tests it first. In lines 23 to
  27 the Python float \<open>(2 / (n * a0))**3\<close> and the Python \<open>int\<close> \<open>2 * n\<close> are multiplied
  with the \<open>float64\<close> results of \<open>factorial\<close>, and the quotient and the square root are
  \<open>float64\<close> operations (no exception). Line 30 raises what \<open>genlaguerre\<close> raises. Line 33
  is elementwise, evaluated from left to right; \<open>rho**l\<close> is a float to an \<open>int\<close> power.
\<close>

definition radial_wavefunction :: "int \<Rightarrow> int \<Rightarrow> real list \<Rightarrow> py_error + float64 list" where
  "radial_wavefunction n l r =
     (let rho = map (\<lambda>x. 2 * x / real_of_int (n * a0)) r
      in if n * a0 = 0 then Inl ZeroDivisionError
         else
           (let norm = np_sqrt (Fin ((2 / real_of_int (n * a0)) ^ 3) * factorial (n - l - 1)
                                 / (Fin (2 * real_of_int n) * factorial (n + l)))
            in case genlaguerre (n - l - 1) (2 * l + 1) of
                 Inl e \<Rightarrow> Inl e
               | Inr laguerre_poly \<Rightarrow>
                   Inr (map (\<lambda>p. norm * Fin (exp (- p / 2)) * Fin (p powi l)
                                    * Fin (laguerre_poly p)) rho)))"

subsection \<open>The plotter (lines 37 to 73)\<close>

text \<open>Python's \<open>str\<close> of an \<open>int\<close>, as the f-strings of lines 51, 60 and 69 format \<open>n\<close> and \<open>l\<close>.\<close>

definition digit_char :: "nat \<Rightarrow> char" where
  "digit_char d = ''0123456789'' ! d"

fun str_nat :: "nat \<Rightarrow> string" where
  "str_nat k = (if k < 10 then [digit_char k] else str_nat (k div 10) @ [digit_char (k mod 10)])"

declare str_nat.simps [simp del]

definition str_int :: "int \<Rightarrow> string" where
  "str_int i = (if i < 0 then CHR ''-'' # str_nat (nat (- i)) else str_nat (nat i))"

text \<open>
  What \<open>plot_single_state\<close> hands to matplotlib: the grid \<open>r\<close> (x values of both panels),
  the wavefunction \<open>R\<close> (panel 1), \<open>prob_density\<close> (panel 2), the legend label
  \<^verbatim>\<open>f'n={n}, l={l}'\<close> of both curves, and the \<open>energy\<close> shown in the figure title.
  The rendering itself (axes, colours, the \<open>.3f\<close> formatting of the energy, the window)
  belongs to matplotlib and is not modelled.
\<close>

record figure =
  fig_r :: "real list"
  fig_R :: "float64 list"
  fig_prob_density :: "float64 list"
  fig_label :: string
  fig_energy :: real

text \<open>Lines 40 and 41: \<open>r_max = 30 * n**2\<close> and the grid of 1000 samples.\<close>

definition r_max :: "int \<Rightarrow> int" where
  "r_max n = 30 * n ^ 2"

definition radial_grid :: "int \<Rightarrow> real list" where
  "radial_grid n = linspace (1 / 100) (real_of_int (r_max n)) 1000"

text \<open>
  Line 44 propagates an exception of the evaluator. Line 45 is elementwise on the two
  arrays, the finite \<open>r**2\<close> times the \<open>float64\<close> \<open>R**2\<close>. Line 68 divides a float by the
  Python \<open>int\<close> \<open>n**2\<close>, which raises \<open>ZeroDivisionError\<close> for a zero divisor.
\<close>

definition plot_single_state :: "int \<Rightarrow> int \<Rightarrow> py_error + figure" where
  "plot_single_state n l =
     (let r = radial_grid n
      in case radial_wavefunction n l r of
           Inl e \<Rightarrow> Inl e
         | Inr R \<Rightarrow>
             (let prob_density = map2 (\<lambda>x y. Fin (x ^ 2) * y ^ 2) r R;
                  label = ''n='' @ str_int n @ '', l='' @ str_int l
              in if n ^ 2 = 0 then Inl ZeroDivisionError
                 else Inr \<lparr> fig_r = r, fig_R = R, fig_prob_density = prob_density,
                            fig_label = label, fig_energy = - (136 / 10) / real_of_int (n ^ 2) \<rparr>))"

subsection \<open>The script entry point (lines 77 to 80)\<close>

text \<open>Standard output as the list of printed lines, then the result of the call.\<close>

definition main :: "string list \<times> (py_error + figure)" where
  "main = ([''Plotting n=2, l=0 state...''], plot_single_state 2 1)"

section \<open>The same lines on an explicit program state\<close>

text \<open>
  A numpy array is a mutable object and \<open>a0\<close> is a module global read at call time. To
  state what a call changes, the program state is made explicit: the value of the global
  \<open>a0\<close>, the array objects by identity, and the next free identity. Arrays that have not
  been allocated hold the empty list. Every array-valued assignment of the script binds
  its name to a new array; the temporaries inside one expression are unreachable once
  the statement has run and are not modelled. numpy's warnings are not part of the state.
  An array holds \<open>float64\<close> values; the finite entries of the input array \<open>r\<close> and of \<open>rho\<close>
  are read with \<open>fin_val\<close>.
\<close>

record pystate =
  glob_a0 :: int
  heap :: "nat \<Rightarrow> float64 list"
  next_id :: nat

definition new_array :: "float64 list \<Rightarrow> pystate \<Rightarrow> nat \<times> pystate" where
  "new_array xs s =
     (next_id s, s\<lparr>heap := (heap s)(next_id s := xs), next_id := Suc (next_id s)\<rparr>)"

text \<open>
  Lines 8 to 35 once more, reading \<open>a0\<close> and the array \<open>r\<close> from the state and allocating
  \<open>rho\<close> (line 20) and \<open>R\<close> (line 33); the result is the identity of \<open>R\<close>.
\<close>

definition radial_wavefunction_st ::
    "int \<Rightarrow> int \<Rightarrow> nat \<Rightarrow> pystate \<Rightarrow> (py_error + nat) \<times> pystate" where
  "radial_wavefunction_st n l r s =
     (let (rho, s1) = new_array
            (map (\<lambda>x. Fin (2 * fin_val x / real_of_int (n * glob_a0 s))) (heap s r)) s
      in if n * glob_a0 s1 = 0 then (Inl ZeroDivisionError, s1)
         else
           (let norm = np_sqrt (Fin ((2 / real_of_int (n * glob_a0 s1)) ^ 3)
                                  * factorial (n - l - 1)
                                 / (Fin (2 * real_of_int n) * factorial (n + l)))
            in case genlaguerre (n - l - 1) (2 * l + 1) of
                 Inl e \<Rightarrow> (Inl e, s1)
               | Inr laguerre_poly \<Rightarrow>
                   (let (R, s2) = new_array
                          (map (\<lambda>p. norm * Fin (exp (- fin_val p / 2)) * Fin (fin_val p powi l)
                                       * Fin (laguerre_poly (fin_val p)))
                             (heap s1 rho)) s1
                    in (Inr R, s2))))"

text \<open>
  Lines 37 to 73 on the state: \<open>r\<close> (line 41) and \<open>prob_density\<close> (line 45) are allocated,
  and the figure holds the contents of the arrays handed to matplotlib.
\<close>

definition plot_single_state_st :: "int \<Rightarrow> int \<Rightarrow> pystate \<Rightarrow> (py_error + figure) \<times> pystate" where
  "plot_single_state_st n l s =
     (let (r, s1) = new_array (map Fin (radial_grid n)) s;
          (res, s2) = radial_wavefunction_st n l r s1
      in case res of
           Inl e \<Rightarrow> (Inl e, s2)
         | Inr R \<Rightarrow>
             (let (prob_density, s3) =
                    new_array (map2 (\<lambda>x y. x ^ 2 * y ^ 2) (heap s2 r) (heap s2 R)) s2;
                  label = ''n='' @ str_int n @ '', l='' @ str_int l
              in if n ^ 2 = 0 then (Inl ZeroDivisionError, s3)
                 else (Inr \<lparr> fig_r = map fin_val (heap s3 r), fig_R = heap s3 R,
                             fig_prob_density = heap s3 prob_density,
                             fig_label = label,
                             fig_energy = - (136 / 10) / real_of_int (n ^ 2) \<rparr>, s3)))"

text \<open>A state after import of the module, holding one array \<open>[0.5, 2.0]\<close> with identity 0.\<close>

definition example_state :: pystate where
  "example_state = \<lparr>glob_a0 = 1, heap = (\<lambda>_. [])(0 := [Fin (1 / 2), Fin 2]), next_id = 1\<rparr>"

section \<open>The contract of the specification\<close>

text \<open>
  The generalized Laguerre polynomial in its explicit form
  \<open>L\<^bsub>k\<^esub>\<^bsup>(a)\<^esup>(x) = \<Sum>\<^bsub>i \<le> k\<^esub> (-1)\<^bsup>i\<^esup> binom(k + a, k - i) x\<^bsup>i\<^esup> / i!\<close>, for a natural parameter \<open>a\<close>
  (the evaluator only uses \<open>a = 2 l + 1\<close>).
\<close>

definition laguerre_closed :: "nat \<Rightarrow> nat \<Rightarrow> real \<Rightarrow> real" where
  "laguerre_closed k a x = (\<Sum>i\<le>k. (- 1) ^ i * real ((k + a) choose (k - i)) / fact i * x ^ i)"

text \<open>The same coefficient with the binomial reflected, which vanishes beyond the degree.\<close>

definition laguerre_coeff :: "nat \<Rightarrow> nat \<Rightarrow> nat \<Rightarrow> real" where
  "laguerre_coeff k a i = (- 1) ^ i * real ((k + a) choose (a + i)) / fact i"

text \<open>
  The contract of section 4.1, in the specification's words:
  \<open>\<rho>(r) = 2 r / (n a\<^sub>0)\<close> with \<open>a\<^sub>0 = 1\<close>,
  \<open>norm = sqrt ((2 / (n a\<^sub>0))\<^sup>3 (n - l - 1)! / (2 n (n + l)!))\<close> and
  \<open>R(r) = norm exp(- \<rho> / 2) \<rho>\<^bsup>l\<^esup> L\<^bsub>n-l-1\<^esub>\<^bsup>(2l+1)\<^esup>(\<rho>)\<close>.
\<close>

definition spec_rho :: "int \<Rightarrow> real \<Rightarrow> real" where
  "spec_rho n x = 2 * x / (real_of_int n * 1)"

definition spec_norm :: "int \<Rightarrow> int \<Rightarrow> real" where
  "spec_norm n l = sqrt ((2 / (real_of_int n * 1)) ^ 3 * fact (nat (n - l - 1))
                          / (2 * real_of_int n * fact (nat (n + l))))"

definition spec_R :: "int \<Rightarrow> int \<Rightarrow> real \<Rightarrow> real" where
  "spec_R n l x = spec_norm n l * exp (- spec_rho n x / 2) * spec_rho n x ^ nat l
                    * laguerre_closed (nat (n - l - 1)) (nat (2 * l + 1)) (spec_rho n x)"

section \<open>The Laguerre recurrence computes the explicit polynomial\<close>

lemma laguerre_closed_coeff:
  "laguerre_closed k a x = (\<Sum>i\<le>k. laguerre_coeff k a i * x ^ i)"
  unfolding laguerre_closed_def laguerre_coeff_def
proof (rule sum.cong)
  fix i assume "i \<in> {..k}"
  then have "i \<le> k" by simp
  then have "(k + a) choose (k - i) = (k + a) choose (a + i)"
    using binomial_symmetric [of "k - i" "k + a"] by (simp add: add.commute)
  then show "(- 1) ^ i * real ((k + a) choose (k - i)) / fact i * x ^ i
     = (- 1) ^ i * real ((k + a) choose (a + i)) / fact i * x ^ i" by simp
qed simp

lemma laguerre_coeff_beyond: "k < i \<Longrightarrow> laguerre_coeff k a i = 0"
  by (simp add: laguerre_coeff_def)

lemma laguerre_closed_extend:
  assumes "k \<le> N"
  shows "(\<Sum>i\<le>N. laguerre_coeff k a i * x ^ i) = laguerre_closed k a x"
proof -
  have "(\<Sum>i\<le>N. laguerre_coeff k a i * x ^ i) = (\<Sum>i\<le>k. laguerre_coeff k a i * x ^ i)"
    using assms by (intro sum.mono_neutral_right) (auto simp: laguerre_coeff_beyond)
  then show ?thesis by (simp add: laguerre_closed_coeff)
qed

lemma absorb_real:
  "(real m + 1 - real j) * real (Suc m choose j) = (real m + 1) * real (m choose j)"
proof (cases "j \<le> Suc m")
  case True
  have "(Suc m - j) * (Suc m choose j) = Suc m * (m choose j)"
    using binomial_absorb_comp [of "Suc m" j] by simp
  then have "real (Suc m - j) * real (Suc m choose j) = real (Suc m) * real (m choose j)"
    by (metis of_nat_mult)
  moreover have "real (Suc m - j) = real m + 1 - real j"
    using True by (simp add: of_nat_diff)
  ultimately show ?thesis by simp
next
  case False
  then show ?thesis by (simp add: binomial_eq_0)
qed

lemma sum_combine:
  fixes f g h w :: "nat \<Rightarrow> real"
  shows "(\<Sum>i\<in>A. (p * f i - g i - q * h i) * w i)
    = p * (\<Sum>i\<in>A. f i * w i) - (\<Sum>i\<in>A. g i * w i) - q * (\<Sum>i\<in>A. h i * w i)"
  by (simp add: sum_distrib_left sum_subtractf sum.distrib algebra_simps)

lemma coeff_step:
  "(real k + 2) * laguerre_coeff (Suc (Suc k)) a (Suc i)
    = (2 * real k + 3 + real a) * laguerre_coeff (Suc k) a (Suc i)
      - laguerre_coeff (Suc k) a i
      - (real k + 1 + real a) * laguerre_coeff k a (Suc i)"
proof -
  define m j where "m = k + a" and "j = a + i"
  have A: "(real m + 1 - real j) * real (Suc m choose j) = (real m + 1) * real (m choose j)"
    by (rule absorb_real)
  have P1: "real (Suc (Suc m) choose Suc j) = real (Suc m choose j) + real (Suc m choose Suc j)"
    by simp
  have P2: "real (Suc m choose Suc j) = real (m choose j) + real (m choose Suc j)"
    by simp
  have key: "(real k + 2) * real (Suc (Suc m) choose Suc j)
      = (2 * real k + 3 + real a) * real (Suc m choose Suc j)
        + (real i + 1) * real (Suc m choose j)
        - (real k + 1 + real a) * real (m choose Suc j)"
    using A unfolding P1 P2 by (simp add: m_def j_def algebra_simps)
  define t :: real where "t = (- 1) ^ Suc i / fact (Suc i)"
  have c2: "laguerre_coeff (Suc (Suc k)) a (Suc i) = t * real (Suc (Suc m) choose Suc j)"
    by (simp add: laguerre_coeff_def t_def m_def j_def)
  have c1: "laguerre_coeff (Suc k) a (Suc i) = t * real (Suc m choose Suc j)"
    by (simp add: laguerre_coeff_def t_def m_def j_def)
  have c0: "laguerre_coeff k a (Suc i) = t * real (m choose Suc j)"
    by (simp add: laguerre_coeff_def t_def m_def j_def)
  have ne: "real i + 1 \<noteq> 0" by linarith
  have "t = - ((- 1) ^ i / fact i) / (real i + 1)"
    by (simp add: t_def add.commute)
  then have s: "(- 1) ^ i / fact i = - t * (real i + 1)"
    using ne by simp
  have "laguerre_coeff (Suc k) a i = (- 1) ^ i / fact i * real (Suc m choose j)"
    by (simp add: laguerre_coeff_def m_def j_def)
  then have c1': "laguerre_coeff (Suc k) a i = - t * ((real i + 1) * real (Suc m choose j))"
    unfolding s by (simp only: mult.assoc)
  have "t * ((real k + 2) * real (Suc (Suc m) choose Suc j))
      = t * ((2 * real k + 3 + real a) * real (Suc m choose Suc j)
        + (real i + 1) * real (Suc m choose j)
        - (real k + 1 + real a) * real (m choose Suc j))"
    by (simp only: key)
  then show ?thesis
    unfolding c2 c1 c0 c1' by (simp add: algebra_simps)
qed

lemma coeff_step0:
  "(real k + 2) * laguerre_coeff (Suc (Suc k)) a 0
    = (2 * real k + 3 + real a) * laguerre_coeff (Suc k) a 0
      - (real k + 1 + real a) * laguerre_coeff k a 0"
proof (cases a)
  case 0
  then show ?thesis by (simp add: laguerre_coeff_def)
next
  case (Suc b)
  define m where "m = k + a"
  have A: "(real m + 1 - real b) * real (Suc m choose b) = (real m + 1) * real (m choose b)"
    by (rule absorb_real)
  have P1: "real (Suc (Suc m) choose Suc b) = real (Suc m choose b) + real (Suc m choose Suc b)"
    by simp
  have P2: "real (Suc m choose Suc b) = real (m choose b) + real (m choose Suc b)"
    by simp
  have key: "(real k + 2) * real (Suc (Suc m) choose Suc b)
      = (2 * real k + 3 + real a) * real (Suc m choose Suc b)
        - (real k + 1 + real a) * real (m choose Suc b)"
    using A unfolding P1 P2 by (simp add: m_def Suc algebra_simps)
  then show ?thesis
    by (simp add: laguerre_coeff_def m_def Suc)
qed

lemma laguerre_closed_rec:
  "(real k + 2) * laguerre_closed (Suc (Suc k)) a x
    = (2 * real k + 3 + real a - x) * laguerre_closed (Suc k) a x
      - (real k + 1 + real a) * laguerre_closed k a x"
proof -
  let ?c = "laguerre_coeff"
  have shift: "(\<Sum>i\<le>Suc (Suc k). ?c K a i * x ^ i)
      = ?c K a 0 + (\<Sum>i\<le>Suc k. ?c K a (Suc i) * x ^ Suc i)" for K
  proof -
    have "(\<Sum>i\<le>Suc (Suc k). ?c K a i * x ^ i)
        = ?c K a 0 * x ^ 0 + (\<Sum>i\<le>Suc k. ?c K a (Suc i) * x ^ Suc i)"
      by (rule sum.atMost_Suc_shift)
    then show ?thesis by (simp only: power_0 mult_1_right)
  qed
  have L2: "laguerre_closed (Suc (Suc k)) a x
      = ?c (Suc (Suc k)) a 0 + (\<Sum>i\<le>Suc k. ?c (Suc (Suc k)) a (Suc i) * x ^ Suc i)"
    using shift [of "Suc (Suc k)"] laguerre_closed_extend [of "Suc (Suc k)" "Suc (Suc k)" a x]
    by (simp only: le_refl)
  have L1: "laguerre_closed (Suc k) a x
      = ?c (Suc k) a 0 + (\<Sum>i\<le>Suc k. ?c (Suc k) a (Suc i) * x ^ Suc i)"
    using shift [of "Suc k"] laguerre_closed_extend [of "Suc k" "Suc (Suc k)" a x]
    by (simp only: Suc_n_not_le_n le_SucI le_refl)
  have L0: "laguerre_closed k a x
      = ?c k a 0 + (\<Sum>i\<le>Suc k. ?c k a (Suc i) * x ^ Suc i)"
    using shift [of k] laguerre_closed_extend [of k "Suc (Suc k)" a x]
    by (simp only: le_SucI le_refl)
  have X: "x * laguerre_closed (Suc k) a x = (\<Sum>i\<le>Suc k. ?c (Suc k) a i * x ^ Suc i)"
    unfolding laguerre_closed_coeff by (simp add: sum_distrib_left algebra_simps)
  have "(real k + 2) * laguerre_closed (Suc (Suc k)) a x
      = (real k + 2) * ?c (Suc (Suc k)) a 0
        + (\<Sum>i\<le>Suc k. ((real k + 2) * ?c (Suc (Suc k)) a (Suc i)) * x ^ Suc i)"
    unfolding L2 by (simp add: sum_distrib_left algebra_simps)
  also have "\<dots> = ((2 * real k + 3 + real a) * ?c (Suc k) a 0 - (real k + 1 + real a) * ?c k a 0)
        + (\<Sum>i\<le>Suc k. ((2 * real k + 3 + real a) * ?c (Suc k) a (Suc i) - ?c (Suc k) a i
              - (real k + 1 + real a) * ?c k a (Suc i)) * x ^ Suc i)"
    by (simp only: coeff_step coeff_step0)
  also have "\<dots> = (2 * real k + 3 + real a) * (?c (Suc k) a 0 + (\<Sum>i\<le>Suc k. ?c (Suc k) a (Suc i) * x ^ Suc i))
        - (\<Sum>i\<le>Suc k. ?c (Suc k) a i * x ^ Suc i)
        - (real k + 1 + real a) * (?c k a 0 + (\<Sum>i\<le>Suc k. ?c k a (Suc i) * x ^ Suc i))"
    unfolding sum_combine by (simp only: algebra_simps)
  also have "\<dots> = (2 * real k + 3 + real a - x) * laguerre_closed (Suc k) a x
      - (real k + 1 + real a) * laguerre_closed k a x"
    unfolding X [symmetric] L1 [symmetric] L0 [symmetric] by (simp add: algebra_simps)
  finally show ?thesis .
qed

lemma eval_genlaguerre_closed:
  "eval_genlaguerre k (real a) x = laguerre_closed k a x"
proof (induction k "real a" x rule: eval_genlaguerre.induct)
  case (1 x)
  show ?case by (simp add: laguerre_closed_def)
next
  case (2 x)
  show ?case by (simp add: laguerre_closed_def)
next
  case (3 k x)
  have "real k + 2 \<noteq> 0" by linarith
  then have "laguerre_closed (Suc (Suc k)) a x
      = ((2 * real k + 3 + real a - x) * laguerre_closed (Suc k) a x
          - (real k + 1 + real a) * laguerre_closed k a x) / (real k + 2)"
    using laguerre_closed_rec [of k a x] by (simp add: field_simps)
  with 3 show ?case by simp
qed

section \<open>Facts about float64 values\<close>

lemma times_NaN_right [simp]: "x * NaN = NaN"
  by (cases x) simp_all

lemma divide_NaN_right [simp]: "x / NaN = NaN"
  by (cases x) simp_all

lemma Fin_power: "Fin x ^ k = Fin (x ^ k)"
  by (induction k) (simp_all add: one_float64_def)

lemma NaN_power: "0 < k \<Longrightarrow> NaN ^ k = NaN"
  by (cases k) simp_all

lemma zero_less_Fin [simp]: "0 < Fin x \<longleftrightarrow> 0 < x"
  by (simp add: zero_float64_def)

text \<open>The threshold of \<open>factorial\<close>: 170! is below \<open>2\<^sup>1\<^sup>0\<^sup>2\<^sup>4\<close> and 171! is not.\<close>

lemma factorial_threshold: "(fact 170 :: nat) < 2 ^ 1024 \<and> (2::nat) ^ 1024 \<le> fact 171"
  by (simp add: fact_numeral)

lemma factorial_finite:
  assumes "0 \<le> k" "k \<le> 170"
  shows "factorial k = Fin (fact (nat k))"
  using assms by (simp add: factorial_def)

lemma factorial_overflow:
  assumes "171 \<le> k"
  shows "factorial k = PosInf"
  using assms by (simp add: factorial_def)

section \<open>Facts about the library functions and the evaluator\<close>

lemma length_linspace: "length (linspace a b num) = num"
  by (simp add: linspace_def Let_def)

lemma linspace_nth:
  assumes "2 \<le> num" "i < num"
  shows "linspace a b num ! i = a + real i * ((b - a) / real (num - 1))"
proof (cases "i = num - 1")
  case True
  with assms have "real (num - 1) \<noteq> 0" by simp
  then have "a + real (num - 1) * ((b - a) / real (num - 1)) = b" by simp
  with True assms show ?thesis
    by (simp add: linspace_def Let_def)
next
  case False
  with assms show ?thesis
    by (simp add: linspace_def Let_def)
qed

lemma linspace_strict:
  assumes "2 \<le> num" "a < b"
  shows "sorted_wrt (<) (linspace a b num)"
proof -
  have pos: "0 < (b - a) / real (num - 1)" using assms by simp
  show ?thesis
    unfolding sorted_wrt_iff_nth_less length_linspace
  proof (intro allI impI)
    fix i j assume ij: "i < j" "j < num"
    then have "real i * ((b - a) / real (num - 1)) < real j * ((b - a) / real (num - 1))"
      using pos by (intro mult_strict_right_mono) simp_all
    with ij assms show "linspace a b num ! i < linspace a b num ! j"
      by (simp add: linspace_nth)
  qed
qed

text \<open>On valid quantum numbers no exception is raised and line 33 is reached.\<close>

lemma radial_wavefunction_returns:
  assumes "1 \<le> n" "0 \<le> l" "l < n"
  shows "\<exists>R. radial_wavefunction n l r = Inr R \<and> length R = length r"
  using assms
  by (simp add: radial_wavefunction_def a0_def genlaguerre_def Let_def)

text \<open>Where both factorials are finite, the normalization constant is finite as well.\<close>

lemma norm_finite:
  assumes "1 \<le> n" "0 \<le> l" "l < n" "n + l \<le> 170"
  shows "np_sqrt (Fin ((2 / real_of_int n) ^ 3) * factorial (n - l - 1)
                    / (Fin (2 * real_of_int n) * factorial (n + l)))
       = Fin (sqrt ((2 / real_of_int n) ^ 3 * fact (nat (n - l - 1))
                      / (2 * real_of_int n * fact (nat (n + l)))))"
proof -
  have f1: "factorial (n - l - 1) = Fin (fact (nat (n - l - 1)))"
    using assms by (intro factorial_finite) simp_all
  have f2: "factorial (n + l) = Fin (fact (nat (n + l)))"
    using assms by (intro factorial_finite) simp_all
  have "0 \<le> (2 / real_of_int n) ^ 3 * fact (nat (n - l - 1))
                      / (2 * real_of_int n * fact (nat (n + l)))"
    using assms by simp
  then have "\<not> (2 / real_of_int n) ^ 3 * fact (nat (n - l - 1))
                      / (2 * real_of_int n * fact (nat (n + l))) < 0"
    by (simp only: not_less)
  then show ?thesis
    unfolding f1 f2 using assms by simp
qed

lemma radial_wavefunction_valid:
  assumes "1 \<le> n" "0 \<le> l" "l < n" "n + l \<le> 170"
  shows "radial_wavefunction n l r =
     Inr (map (\<lambda>x. Fin (sqrt ((2 / real_of_int n) ^ 3 * fact (nat (n - l - 1))
                           / (2 * real_of_int n * fact (nat (n + l))))
                 * exp (- (2 * x / real_of_int n) / 2) * (2 * x / real_of_int n) ^ nat l
                 * eval_genlaguerre (nat (n - l - 1)) (real_of_int (2 * l + 1))
                     (2 * x / real_of_int n))) r)"
proof -
  have g: "genlaguerre (n - l - 1) (2 * l + 1)
      = Inr (eval_genlaguerre (nat (n - l - 1)) (real_of_int (2 * l + 1)))"
    using assms by (simp add: genlaguerre_def)
  have p: "x powi l = x ^ nat l" for x :: real
    using assms by (simp add: power_int_def)
  show ?thesis
    unfolding radial_wavefunction_def a0_def Let_def g
    using assms norm_finite [OF assms]
    by (simp add: comp_def p)
qed

text \<open>Line 33 is reached on valid quantum numbers only.\<close>

lemma radial_wavefunction_Inr_domain:
  assumes "radial_wavefunction n l r = Inr R"
  shows "1 \<le> n \<and> 0 \<le> l \<and> l < n"
  using assms
  by (auto simp: radial_wavefunction_def a0_def genlaguerre_def Let_def
      split: if_splits sum.splits)

text \<open>
  The float division of lines 25 to 26 has a zero divisor only where an exception
  follows, so the sign of that zero never reaches a result.
\<close>

lemma norm_divisor_zero_raises:
  assumes "Fin (2 * real_of_int n) * factorial (n + l) = Fin 0"
  shows "\<exists>e. radial_wavefunction n l r = Inl e"
proof (cases "radial_wavefunction n l r")
  case (Inl e)
  then show ?thesis by blast
next
  case (Inr R)
  then have "1 \<le> n \<and> 0 \<le> l \<and> l < n"
    by (rule radial_wavefunction_Inr_domain)
  then have "Fin (2 * real_of_int n) * factorial (n + l) \<noteq> Fin 0"
    by (simp add: factorial_def inf_of_sign_def)
  with assms show ?thesis by simp
qed

lemma radial_wavefunction_length:
  assumes "radial_wavefunction n l r = Inr R"
  shows "length R = length r"
  using assms
  by (auto simp: radial_wavefunction_def Let_def split: sum.splits if_splits)

lemma plot_valid:
  assumes "1 \<le> n" "0 \<le> l" "l < n"
  shows "\<exists>fig. plot_single_state n l = Inr fig"
proof -
  obtain R where "radial_wavefunction n l (radial_grid n) = Inr R"
    using radial_wavefunction_returns [OF assms] by blast
  then show ?thesis
    using assms by (simp add: plot_single_state_def Let_def)
qed

lemma plot_Inr:
  assumes "plot_single_state n l = Inr fig"
  shows "fig_r fig = radial_grid n \<and> radial_wavefunction n l (radial_grid n) = Inr (fig_R fig)
    \<and> fig_prob_density fig = map2 (\<lambda>x y. Fin (x ^ 2) * y ^ 2) (fig_r fig) (fig_R fig)
    \<and> fig_label fig = ''n='' @ str_int n @ '', l='' @ str_int l
    \<and> fig_energy fig = - (136 / 10) / real_of_int (n ^ 2)"
  using assms by (auto simp: plot_single_state_def Let_def split: sum.splits if_splits)

text \<open>
  For \<open>n + l \<le> 169\<close> both factorials and the product \<open>2 n (n + l)!\<close> are finite, and the
  evaluator computes the formula of the contract, with the explicit Laguerre polynomial.
  (For \<open>n + l = 170\<close> the factorials are finite but \<open>2 n (n + l)!\<close> exceeds the largest
  \<open>float64\<close>, an overflow of an arithmetic operation, which the model does not represent.)
\<close>

lemma radial_wavefunction_formula_in_range:
  assumes "1 \<le> n" "0 \<le> l" "l < n" "n + l \<le> 169"
  shows "radial_wavefunction n l r = Inr (map (\<lambda>x. Fin (spec_R n l x)) r)"
proof -
  have eq: "real_of_int (2 * l + 1) = real (nat (2 * l + 1))"
    using assms by simp
  have le: "n + l \<le> 170"
    using assms by simp
  show ?thesis
    unfolding radial_wavefunction_valid [OF assms(1-3) le] eq eval_genlaguerre_closed
    by (simp add: spec_R_def spec_norm_def spec_rho_def)
qed

section \<open>Facts about the explicit program state\<close>

lemma new_array_frame:
  assumes "new_array xs s = (p, s')"
  shows "p = next_id s" and "glob_a0 s' = glob_a0 s" and "next_id s' = Suc (next_id s)"
    and "heap s' p = xs" and "\<forall>q<next_id s. heap s' q = heap s q"
  using assms by (auto simp: new_array_def)

lemma radial_wavefunction_st_frame:
  assumes "radial_wavefunction_st n l r s = (res, s')"
  shows "glob_a0 s' = glob_a0 s \<and> next_id s \<le> next_id s'
       \<and> (\<forall>q<next_id s. heap s' q = heap s q)"
  using assms
  by (auto simp: radial_wavefunction_st_def new_array_def Let_def
      split: if_splits sum.splits prod.splits)

lemma radial_wavefunction_st_value:
  assumes "radial_wavefunction_st n l r s = (res, s')" "glob_a0 s = a0"
  shows "map_sum id (heap s') res = radial_wavefunction n l (map fin_val (heap s r))"
  using assms
  by (auto simp: radial_wavefunction_st_def radial_wavefunction_def new_array_def Let_def
      comp_def split: if_splits sum.splits prod.splits)

lemma plot_single_state_st_frame:
  assumes "plot_single_state_st n l s = (res, s')"
  shows "glob_a0 s' = glob_a0 s \<and> next_id s \<le> next_id s'
       \<and> (\<forall>q<next_id s. heap s' q = heap s q)"
proof -
  obtain r s1 where a1: "new_array (map Fin (radial_grid n)) s = (r, s1)"
    by (cases "new_array (map Fin (radial_grid n)) s")
  obtain res2 s2 where a2: "radial_wavefunction_st n l r s1 = (res2, s2)"
    by (cases "radial_wavefunction_st n l r s1")
  note f1 = new_array_frame [OF a1]
  note f2 = radial_wavefunction_st_frame [OF a2]
  show ?thesis
  proof (cases res2)
    case (Inl e)
    with assms a1 a2 have "s' = s2" by (simp add: plot_single_state_st_def)
    with f1 f2 show ?thesis by simp
  next
    case (Inr R)
    obtain pd s3 where a3: "new_array (map2 (\<lambda>x y. x ^ 2 * y ^ 2) (heap s2 r) (heap s2 R)) s2 = (pd, s3)"
      by (cases "new_array (map2 (\<lambda>x y. x ^ 2 * y ^ 2) (heap s2 r) (heap s2 R)) s2")
    note f3 = new_array_frame [OF a3]
    from assms a1 a2 a3 Inr have "s' = s3"
      by (simp add: plot_single_state_st_def Let_def split: if_splits)
    with f1 f2 f3 show ?thesis by simp
  qed
qed

lemma map2_Fin_left:
  "map2 (\<lambda>x y. x ^ 2 * y ^ 2) (map Fin xs) ys = map2 (\<lambda>x y. Fin (x ^ 2) * y ^ 2) xs ys"
  by (simp add: zip_map1 Fin_power split_def)

lemma plot_single_state_st_value:
  assumes "plot_single_state_st n l s = (res, s')" "glob_a0 s = a0"
  shows "res = plot_single_state n l"
proof -
  obtain r s1 where a1: "new_array (map Fin (radial_grid n)) s = (r, s1)"
    by (cases "new_array (map Fin (radial_grid n)) s")
  obtain res2 s2 where a2: "radial_wavefunction_st n l r s1 = (res2, s2)"
    by (cases "radial_wavefunction_st n l r s1")
  note f1 = new_array_frame [OF a1]
  note f2 = radial_wavefunction_st_frame [OF a2]
  note grid = f1(4)
  have fv: "map fin_val (map Fin (radial_grid n)) = radial_grid n"
    by (simp add: comp_def)
  from f1 assms(2) have "glob_a0 s1 = a0" by simp
  with a2 have "map_sum id (heap s2) res2 = radial_wavefunction n l (map fin_val (heap s1 r))"
    by (rule radial_wavefunction_st_value)
  then have v: "map_sum id (heap s2) res2 = radial_wavefunction n l (radial_grid n)"
    by (simp only: grid fv)
  from f1 f2 have r2: "heap s2 r = map Fin (radial_grid n)" using grid by simp
  show ?thesis
  proof (cases res2)
    case (Inl e)
    with v have vL: "radial_wavefunction n l (radial_grid n) = Inl e" by simp
    from assms a1 a2 Inl show ?thesis
      by (simp add: plot_single_state_st_def plot_single_state_def Let_def vL)
  next
    case (Inr R)
    obtain pd s3 where a3: "new_array (map2 (\<lambda>x y. x ^ 2 * y ^ 2) (heap s2 r) (heap s2 R)) s2 = (pd, s3)"
      by (cases "new_array (map2 (\<lambda>x y. x ^ 2 * y ^ 2) (heap s2 r) (heap s2 R)) s2")
    note f3 = new_array_frame [OF a3]
    from a2 Inr have "R < next_id s2"
      by (auto simp: radial_wavefunction_st_def new_array_def Let_def
          split: if_splits sum.splits prod.splits)
    moreover from f1 f2 have "r < next_id s2" by simp
    ultimately have h3: "heap s3 r = heap s2 r" "heap s3 R = heap s2 R"
      using f3 by simp_all
    from v Inr have vR: "radial_wavefunction n l (radial_grid n) = Inr (heap s2 R)" by simp
    from f3(1) f3(4) have pdv:
      "heap s3 (next_id s2)
        = map2 (\<lambda>x y. Fin (x ^ 2) * y ^ 2) (radial_grid n) (heap s2 R)"
      by (simp add: r2 map2_Fin_left)
    from assms a1 a2 a3 Inr show ?thesis
      by (auto simp: plot_single_state_st_def plot_single_state_def Let_def vR h3 r2 pdv f3(1)
          comp_def split: if_splits)
  qed
qed

section \<open>The claims\<close>

text \<open>
  C1. For every integer \<open>n \<ge> 1\<close>, integer \<open>l\<close> with \<open>0 \<le> l < n\<close> and every sequence \<open>r\<close> of
  strictly positive reals, the radial evaluator is to return the sequence of the values
  \<open>norm exp(- \<rho> / 2) \<rho>\<^bsup>l\<^esup> L\<^bsub>n-l-1\<^esub>\<^bsup>(2l+1)\<^esup>(\<rho>)\<close>. The code does not: the factorial of the library
  overflows from 171 on. At \<open>n = 172\<close>, \<open>l = 0\<close> both factorials are \<open>inf\<close>, the
  normalization constant is \<open>sqrt (inf / inf) = nan\<close> and the output is \<open>nan\<close>, which is not
  the value of the formula; at \<open>n = 171\<close>, \<open>l = 0\<close> the constant is \<open>sqrt (x / inf) = 0\<close> and
  the output is \<open>0\<close>.
\<close>

theorem radial_wavefunction_overflow_nan:
  "radial_wavefunction 172 0 [1] = Inr [NaN]
   \<and> radial_wavefunction 172 0 [1] \<noteq> Inr (map (\<lambda>x. Fin (spec_R 172 0 x)) [1])
   \<and> radial_wavefunction 171 0 [1] = Inr [Fin 0]"
  by (simp add: radial_wavefunction_def a0_def genlaguerre_def factorial_def Let_def
      inf_of_sign_def)

text \<open>
  C2. For every \<open>n\<close> and every \<open>l\<close> with \<open>l \<ge> n\<close> (for example \<open>n = 1\<close>, \<open>l = 1\<close>), invoking
  the radial evaluator raises an error and does not return a sequence of values: the
  call raises \<open>ValueError\<close> (from the Laguerre constructor, whose degree \<open>n - l - 1\<close> is
  negative or whose parameter is at most \<open>-1\<close>), except for \<open>n = 0\<close>, where the division
  of line 24 raises \<open>ZeroDivisionError\<close> before that.
\<close>

theorem radial_wavefunction_rejects_l_ge_n:
  assumes "n \<le> l"
  shows "radial_wavefunction n l r = Inl (if n = 0 then ZeroDivisionError else ValueError)"
  using assms
  by (auto simp: radial_wavefunction_def a0_def genlaguerre_def Let_def)

theorem radial_wavefunction_rejects_l_ge_n_witness:
  "(1::int) \<le> 1 \<and> radial_wavefunction 1 1 [1 / 2, 3] = Inl ValueError"
  using radial_wavefunction_rejects_l_ge_n [of 1 1 "[1 / 2, 3]"] by simp





text \<open>
  C5. For every \<open>n \<ge> 1\<close> the energy computed by the plotter is \<open>-13.6 / n\<^sup>2\<close>, whatever \<open>l\<close>
  and the grid are: the plotter returns a figure for every valid \<open>l\<close>, and every figure
  it returns for \<open>n\<close> carries that energy. For example \<open>n = 1\<close> gives \<open>-13.6\<close>, \<open>n = 2\<close>
  gives \<open>-3.4\<close> and \<open>n = 4\<close> gives \<open>-0.85\<close>.
\<close>

theorem energy_formula:
  assumes "1 \<le> n"
  shows "(0 \<le> l \<and> l < n \<longrightarrow> (\<exists>fig. plot_single_state n l = Inr fig))
       \<and> (\<forall>fig. plot_single_state n l = Inr fig \<longrightarrow>
             fig_energy fig = - (136 / 10) / (real_of_int n)\<^sup>2)"
  using assms plot_valid [of n l] plot_Inr [of n l] by simp

theorem energy_formula_witness:
  "fig_energy (projr (plot_single_state 1 0)) = - (136 / 10)
   \<and> fig_energy (projr (plot_single_state 2 1)) = - (34 / 10)
   \<and> fig_energy (projr (plot_single_state 4 2)) = - (85 / 100)"
  using energy_formula [of 1 0] energy_formula [of 2 1] energy_formula [of 4 2] by auto

text \<open>
  C6. For every \<open>n \<ge> 1\<close> the radial grid built by the plotter has exactly 1000 points, is
  strictly increasing and evenly spaced, starts at \<open>0.01\<close> and ends at \<open>30 n\<^sup>2\<close>; it is the
  grid of every figure the plotter returns.
\<close>

theorem radial_grid_shape:
  assumes "1 \<le> n"
  shows "length (radial_grid n) = 1000
       \<and> sorted_wrt (\<lambda>u v. u < v) (radial_grid n)
       \<and> (\<forall>i<999. radial_grid n ! Suc i - radial_grid n ! i
                     = (real_of_int (30 * n\<^sup>2) - 1 / 100) / 999)
       \<and> hd (radial_grid n) = 1 / 100
       \<and> last (radial_grid n) = real_of_int (30 * n\<^sup>2)
       \<and> (\<forall>fig. plot_single_state n l = Inr fig \<longrightarrow> fig_r fig = radial_grid n)"
proof -
  have "1 \<le> n\<^sup>2"
    using assms by (metis one_le_power)
  then have lt: "(1::real) / 100 < real_of_int (r_max n)"
    unfolding r_max_def by linarith
  have len: "length (radial_grid n) = 1000"
    by (simp add: radial_grid_def length_linspace)
  have nth: "radial_grid n ! i = 1 / 100 + real i * ((real_of_int (r_max n) - 1 / 100) / 999)"
    if "i < 1000" for i
    using that unfolding radial_grid_def by (simp add: linspace_nth)
  have srt: "sorted_wrt (\<lambda>u v. u < v) (radial_grid n)"
    unfolding radial_grid_def using lt by (intro linspace_strict) simp_all
  have step: "\<forall>i<999. radial_grid n ! Suc i - radial_grid n ! i
      = (real_of_int (30 * n\<^sup>2) - 1 / 100) / 999"
    by (simp add: nth r_max_def field_simps)
  from len have ne: "radial_grid n \<noteq> []" by auto
  have h: "hd (radial_grid n) = 1 / 100"
  proof -
    from ne have "hd (radial_grid n) = radial_grid n ! 0" by (rule hd_conv_nth)
    then show ?thesis using nth [of 0] by simp
  qed
  have l: "last (radial_grid n) = real_of_int (30 * n\<^sup>2)"
  proof -
    from ne have "last (radial_grid n) = radial_grid n ! 999"
      using len by (simp add: last_conv_nth)
    then show ?thesis using nth [of 999] by (simp add: r_max_def field_simps)
  qed
  have f: "\<forall>fig. plot_single_state n l = Inr fig \<longrightarrow> fig_r fig = radial_grid n"
    using plot_Inr [of n l] by blast
  from len srt step h l f show ?thesis by blast
qed

theorem radial_grid_shape_witness:
  "length (radial_grid 2) = 1000 \<and> hd (radial_grid 2) = 1 / 100 \<and> last (radial_grid 2) = 120
   \<and> radial_grid 2 ! Suc 0 - radial_grid 2 ! 0 = (120 - 1 / 100) / 999
   \<and> fig_r (projr (plot_single_state 2 1)) = radial_grid 2"
  using radial_grid_shape [of 2 1] plot_valid [of 2 1] by auto

text \<open>
  C7. For every \<open>(n, l)\<close> for which the plotter returns a figure, the probability density
  is the pointwise transform \<open>r\<^sup>2 R(r)\<^sup>2\<close> of the evaluator's output on the grid and has the
  length of the grid.
\<close>

theorem prob_density_pointwise:
  assumes "plot_single_state n l = Inr fig"
  shows "radial_wavefunction n l (fig_r fig) = Inr (fig_R fig)
       \<and> length (fig_prob_density fig) = length (fig_r fig)
       \<and> (\<forall>i<length (fig_r fig).
             fig_prob_density fig ! i = Fin ((fig_r fig ! i)\<^sup>2) * (fig_R fig ! i)\<^sup>2)"
proof -
  from plot_Inr [OF assms]
  have r: "fig_r fig = radial_grid n"
    and R: "radial_wavefunction n l (radial_grid n) = Inr (fig_R fig)"
    and pd: "fig_prob_density fig = map2 (\<lambda>x y. Fin (x\<^sup>2) * y\<^sup>2) (fig_r fig) (fig_R fig)"
    by simp_all
  from R have len: "length (fig_R fig) = length (fig_r fig)"
    unfolding r by (rule radial_wavefunction_length)
  show ?thesis
    using R len by (simp add: r pd)
qed

theorem prob_density_pointwise_witness:
  "\<exists>fig. plot_single_state 2 1 = Inr fig
     \<and> length (fig_prob_density fig) = 1000
     \<and> fig_prob_density fig ! 0 = Fin ((fig_r fig ! 0)\<^sup>2) * (fig_R fig ! 0)\<^sup>2"
proof -
  obtain fig where fig: "plot_single_state 2 1 = Inr fig"
    using plot_valid [of 2 1] by auto
  from plot_Inr [OF fig] have "length (fig_r fig) = 1000"
    by (simp add: radial_grid_def length_linspace)
  with prob_density_pointwise [OF fig] fig show ?thesis by auto
qed

text \<open>
  C8. The radial evaluator has no side effects and is deterministic: a call leaves the
  constant \<open>a0\<close>, its input array \<open>r\<close> and every other array allocated before the call
  unchanged, it returns the value of the pure function \<open>radial_wavefunction\<close>, and a
  second call on the same arguments returns the same values. Two invocations of the
  pipeline \<open>plot_single_state\<close> on the same \<open>(n, l)\<close> produce identical outputs as well.
\<close>

theorem evaluator_pure_deterministic:
  assumes "glob_a0 s = a0" and "r < next_id s"
    and "radial_wavefunction_st n l r s = (res1, s1)"
    and "radial_wavefunction_st n l r s1 = (res2, s2)"
    and "plot_single_state_st n l s = (out1, t1)"
    and "plot_single_state_st n l t1 = (out2, t2)"
  shows "glob_a0 s1 = a0 \<and> heap s1 r = heap s r \<and> (\<forall>q<next_id s. heap s1 q = heap s q)
       \<and> map_sum id (heap s1) res1 = radial_wavefunction n l (map fin_val (heap s r))
       \<and> map_sum id (heap s2) res2 = map_sum id (heap s1) res1
       \<and> glob_a0 t1 = a0 \<and> (\<forall>q<next_id s. heap t1 q = heap s q)
       \<and> out1 = plot_single_state n l \<and> out2 = out1"
proof -
  from radial_wavefunction_st_frame [OF assms(3)]
  have f1: "glob_a0 s1 = glob_a0 s" "next_id s \<le> next_id s1"
    "\<forall>q<next_id s. heap s1 q = heap s q" by simp_all
  have r1: "heap s1 r = heap s r" using f1 assms(2) by simp
  have v1: "map_sum id (heap s1) res1 = radial_wavefunction n l (map fin_val (heap s r))"
    using assms(3) assms(1) by (rule radial_wavefunction_st_value)
  have "map_sum id (heap s2) res2 = radial_wavefunction n l (map fin_val (heap s1 r))"
    using assms(4) f1(1) assms(1) by (intro radial_wavefunction_st_value) simp_all
  then have v2: "map_sum id (heap s2) res2 = map_sum id (heap s1) res1"
    by (simp add: r1 v1)
  from plot_single_state_st_frame [OF assms(5)]
  have g1: "glob_a0 t1 = glob_a0 s" "\<forall>q<next_id s. heap t1 q = heap s q" by simp_all
  have o1: "out1 = plot_single_state n l"
    using assms(5) assms(1) by (rule plot_single_state_st_value)
  have o2: "out2 = plot_single_state n l"
    using assms(6) g1(1) assms(1) by (intro plot_single_state_st_value) simp_all
  from f1 r1 v1 v2 g1 o1 o2 assms(1) show ?thesis by simp
qed

theorem evaluator_pure_deterministic_witness:
  "glob_a0 (snd (radial_wavefunction_st 2 1 0 example_state)) = 1
   \<and> heap (snd (radial_wavefunction_st 2 1 0 example_state)) 0 = [Fin (1 / 2), Fin 2]
   \<and> map_sum id (heap (snd (radial_wavefunction_st 2 1 0
                               (snd (radial_wavefunction_st 2 1 0 example_state)))))
        (fst (radial_wavefunction_st 2 1 0 (snd (radial_wavefunction_st 2 1 0 example_state))))
      = map_sum id (heap (snd (radial_wavefunction_st 2 1 0 example_state)))
          (fst (radial_wavefunction_st 2 1 0 example_state))
   \<and> fst (plot_single_state_st 2 1 (snd (plot_single_state_st 2 1 example_state)))
      = fst (plot_single_state_st 2 1 example_state)"
proof -
  have h1: "glob_a0 example_state = a0" by (simp add: example_state_def a0_def)
  have h2: "0 < next_id example_state" by (simp add: example_state_def)
  show ?thesis
    using evaluator_pure_deterministic [OF h1 h2 surjective_pairing surjective_pairing
        surjective_pairing surjective_pairing, of 2 1]
    by (simp add: example_state_def a0_def)
qed

text \<open>
  C9. Run as a program, the script prints \<open>Plotting n=2, l=0 state...\<close> and then calls
  \<open>plot_single_state\<close> with \<open>n = 2\<close>, \<open>l = 1\<close>: the figure plotted is labelled \<open>n=2, l=1\<close>,
  not with the state the printed line names.
\<close>

theorem main_label_mismatch:
  "fst main = [''Plotting n=2, l=0 state...'']
   \<and> snd main = plot_single_state 2 1
   \<and> (\<exists>fig. snd main = Inr fig \<and> fig_label fig = ''n=2, l=1''
         \<and> fig_R fig = projr (radial_wavefunction 2 1 (radial_grid 2)))"
  by (simp add: main_def plot_single_state_def Let_def radial_wavefunction_valid
      str_int_def str_nat.simps digit_char_def)




end
